theory Spec2Isabelle
  imports Complex_Main "HOL-Library.Char_ord" "HOL-Library.List_Lexorder"
begin

section \<open>Python values and dictionaries\<close>

text \<open>
  The values the two modules handle: \<open>None\<close>, booleans, integers (unbounded, as Python's),
  floats, strings and string-to-string dictionaries (the \<open>tags\<close> of a metric). The code
  only stores, copies and compares the value of a metric, so a float is a real number, one
  of the two infinities, or NaN, the one float that differs from itself; rounding plays
  no part. A dictionary is an association list in insertion order with distinct keys.
\<close>

datatype pyfloat = Finite real | PosInf | NegInf | NaN

datatype pyval =
    PyNone
  | PyBool bool
  | PyInt int
  | PyFloat pyfloat
  | PyStr string
  | PyDict "(string \<times> string) list"

datatype exn =
    AttributeError string
  | TypeError string
  | ValueError string
  | Exception string

text \<open>Truth value testing, as \<open>x or y\<close> applies it to \<open>x\<close>.\<close>

fun truthy :: "pyval \<Rightarrow> bool" where
  "truthy PyNone = False"
| "truthy (PyBool b) = b"
| "truthy (PyInt i) = (i \<noteq> 0)"
| "truthy (PyFloat x) = (x \<noteq> Finite 0)"
| "truthy (PyStr s) = (s \<noteq> [])"
| "truthy (PyDict d) = (d \<noteq> [])"

definition py_or :: "pyval \<Rightarrow> pyval \<Rightarrow> pyval" where
  "py_or x y = (if truthy x then x else y)"

text \<open>\<open>d[k] = v\<close>: an existing key keeps its position, a new key goes last.\<close>

fun dict_set :: "(string \<times> 'a) list \<Rightarrow> string \<Rightarrow> 'a \<Rightarrow> (string \<times> 'a) list" where
  "dict_set [] k v = [(k, v)]"
| "dict_set ((k', v') # d) k v =
     (if k' = k then (k', v) # d else (k', v') # dict_set d k v)"

text \<open>\<open>d.update(items)\<close>, and the comprehension \<open>{k: v for k, v in items}\<close>.\<close>

definition dict_update :: "(string \<times> 'a) list \<Rightarrow> (string \<times> 'a) list \<Rightarrow> (string \<times> 'a) list" where
  "dict_update d items = foldl (\<lambda>acc (k, v). dict_set acc k v) d items"






section \<open>mlflow/entities/metric.py\<close>

text \<open>
  A \<open>Metric\<close> object is its class and its instance dictionary \<open>__dict__\<close> (\<open>attrs\<close>), which is what
  \<open>__eq__\<close> compares and what an attribute read such as \<open>self._tags\<close> looks into.
\<close>

record pyobj =
  cls :: string
  attrs :: "(string \<times> pyval) list"

definition getattr :: "pyobj \<Rightarrow> string \<Rightarrow> exn + pyval" where
  "getattr self name =
     (case map_of (attrs self) name of
        None \<Rightarrow> Inl (AttributeError name)
      | Some v \<Rightarrow> Inr v)"

text \<open>
  Sequencing of two steps of which the first may raise: the exception is passed on, and
  the second step gets the value otherwise.
\<close>

definition and_then :: "exn + 'a \<Rightarrow> ('a \<Rightarrow> exn + 'b) \<Rightarrow> exn + 'b" where
  "and_then r f = (case r of Inl e \<Rightarrow> Inl e | Inr x \<Rightarrow> f x)"

definition the_default :: "'a \<Rightarrow> 'a option \<Rightarrow> 'a" where
  "the_default d x = (case x of None \<Rightarrow> d | Some v \<Rightarrow> v)"

definition setattr :: "pyobj \<Rightarrow> string \<Rightarrow> pyval \<Rightarrow> pyobj" where
  "setattr self name v = self\<lparr>attrs := dict_set (attrs self) name v\<rparr>"

text \<open>\<open>Metric.__init__(self, key, value, timestamp, step, tags)\<close>\<close>

definition Metric_init :: "pyval \<Rightarrow> pyval \<Rightarrow> pyval \<Rightarrow> pyval \<Rightarrow> pyval \<Rightarrow> pyobj" where
  "Metric_init key val timestamp step tags =
     (let self = \<lparr>cls = ''Metric'', attrs = []\<rparr>;
          self = setattr self ''_key'' key;
          self = setattr self ''_value'' val;
          self = setattr self ''_timestamp'' timestamp;
          self = setattr self ''_step'' step;
          self = setattr self ''_tags'' (py_or tags (PyDict []))
      in self)"

text \<open>The properties \<open>key\<close>, \<open>value\<close>, \<open>timestamp\<close>, \<open>step\<close> and \<open>tags\<close>.\<close>

definition key :: "pyobj \<Rightarrow> exn + pyval" where
  "key self = getattr self ''_key''"

definition "value" :: "pyobj \<Rightarrow> exn + pyval" where
  "value self = getattr self ''_value''"

definition timestamp :: "pyobj \<Rightarrow> exn + pyval" where
  "timestamp self = getattr self ''_timestamp''"

definition step :: "pyobj \<Rightarrow> exn + pyval" where
  "step self = getattr self ''_step''"

definition tags :: "pyobj \<Rightarrow> exn + pyval" where
  "tags self = getattr self ''_tags''"






text \<open>\<open>d.items()\<close>, which only a dictionary has.\<close>

fun py_items :: "pyval \<Rightarrow> exn + (string \<times> string) list" where
  "py_items (PyDict d) = Inr d"
| "py_items _ = Inl (AttributeError ''items'')"




text \<open>
  \<open>Metric.__hash__(self)\<close>. The generator's first iterable, \<open>sorted(self._dimensions)\<close>,
  is evaluated before anything else. The built-in \<open>hash\<close> of the final tuple is the
  parameter \<open>h\<close>.
\<close>

definition Metric_hash ::
    "(pyval \<times> pyval \<times> pyval \<times> pyval \<times> (string \<times> string) list \<Rightarrow> int) \<Rightarrow> pyobj \<Rightarrow> exn + int" where
  "Metric_hash h self =
     and_then (getattr self ''_dimensions'') (\<lambda>dims.
     and_then (py_items dims) (\<lambda>its.
     and_then (getattr self ''_key'') (\<lambda>k.
     and_then (getattr self ''_value'') (\<lambda>v.
     and_then (getattr self ''_timestamp'') (\<lambda>ts.
     and_then (getattr self ''_step'') (\<lambda>s.
       Inr (h (k, v, ts, s,
                map (\<lambda>d. (d, the_default [] (map_of its d))) (sort (map fst its))))))))))"


section \<open>mlflow/system_metrics/system_metrics_monitor.py\<close>

subsection \<open>Sources, the world around the monitor, and the monitor object\<close>

text \<open>
  Modelled from the spec: the source classes (\<open>CPUMonitor\<close>, \<open>DiskMonitor\<close>,
  \<open>NetworkMonitor\<close>, \<open>GPUMonitor\<close>) are not among the sources. The spec gives a source
  the capability set collect, reduce and reset over a sample buffer it owns; the monitor
  calls them as \<open>collect_metrics()\<close>, \<open>aggregate_metrics()\<close> and \<open>clear_metrics()\<close>, and
  reads the buffer as the attribute \<open>_metrics\<close>. A source is a state of type \<open>'s\<close>, and
  the methods are functions of that state (the state says which class it belongs to); they
  return normally, as the spec requires of them. \<open>'v\<close> is the type of a reduced value and
  \<open>'b\<close> that of the samples buffered under one metric name.
\<close>

record ('s, 'v, 'b) source_class =
  src_collect_metrics :: "'s \<Rightarrow> 's"
  src_aggregate_metrics :: "'s \<Rightarrow> (string \<times> 'v) list"
  src_clear_metrics :: "'s \<Rightarrow> 's"
  src_metrics :: "'s \<Rightarrow> (string \<times> 'b) list"

text \<open>
  What the loop meets outside the object, by the number of the call: the answer to the
  \<open>n\<close>-th \<open>get_run(run_id)\<close> (an exception, or \<open>run.info.status\<close>), whether another thread
  has set the shutdown event by the \<open>n\<close>-th \<open>is_set()\<close>, and whether the \<open>n\<close>-th
  \<open>record_metrics\<close> of the \<open>BatchMetricsLogger\<close> raises. Calls are counted from 0.
\<close>

record environment =
  get_run :: "nat \<Rightarrow> exn + string"
  signalled :: "nat \<Rightarrow> bool"
  record_metrics :: "nat \<Rightarrow> exn option"

datatype level = INFO | WARNING | ERROR

datatype 'v event =
    Log level string
  | Wait real
  | Record "(string \<times> 'v) list" int
  | RecordFailed "(string \<times> 'v) list" int

datatype thread = Thread string

text \<open>
  The attributes of a \<open>SystemMetricsMonitor\<close>, followed by the bookkeeping of the world:
  what was logged, waited for and sent to the sink so far (oldest first), and how many
  calls of each kind were made.
\<close>

record ('s, 'v) monitor_state =
  monitors :: "'s list"
  sampling_interval :: real
  samples_before_logging :: int
  run_id :: string
  shutdown_event :: bool
  process :: "thread option"
  logging_step :: int
  events :: "'v event list"
  n_get_run :: nat
  n_is_set :: nat
  n_record_metrics :: nat

text \<open>How a statement of a loop body ends: it falls through, it returns, or it raises.\<close>

datatype 'a flow = Next 'a | Return 'a | Raise exn 'a

fun exn_str :: "exn \<Rightarrow> string" where
  "exn_str (AttributeError a) = a"
| "exn_str (TypeError m) = m"
| "exn_str (ValueError m) = m"
| "exn_str (Exception m) = m"

definition log :: "level \<Rightarrow> string \<Rightarrow> ('s, 'v) monitor_state \<Rightarrow> ('s, 'v) monitor_state" where
  "log lvl msg st = st\<lparr>events := events st @ [Log lvl msg]\<rparr>"

subsection \<open>\<open>__init__\<close>\<close>

text \<open>
  \<open>X.get() or y\<close> for an environment variable of a numeric type: \<open>get()\<close> is \<open>None\<close> when
  the variable is unset, and a number is falsy when it is zero.
\<close>

definition num_or :: "'a::zero option \<Rightarrow> 'a \<Rightarrow> 'a" where
  "num_or x y = (case x of None \<Rightarrow> y | Some v \<Rightarrow> if v \<noteq> 0 then v else y)"

text \<open>
  \<open>SystemMetricsMonitor.__init__(self, run_id, sampling_interval=10, samples_before_logging=1)\<close>.
  The first four arguments are what the four source constructors do (raise, or return a
  source), the next two what \<open>.get()\<close> returns for
  \<open>MLFLOW_SYSTEM_METRICS_SAMPLING_INTERVAL\<close> and
  \<open>MLFLOW_SYSTEM_METRICS_SAMPLES_BEFORE_LOGGING\<close>; a keyword argument left out is \<open>None\<close>.
\<close>

definition SystemMetricsMonitor_init ::
    "exn + 's \<Rightarrow> exn + 's \<Rightarrow> exn + 's \<Rightarrow> exn + 's \<Rightarrow> real option \<Rightarrow> int option \<Rightarrow>
     string \<Rightarrow> real option \<Rightarrow> int option \<Rightarrow> exn + ('s, 'v) monitor_state" where
  "SystemMetricsMonitor_init CPUMonitor DiskMonitor NetworkMonitor GPUMonitor
       env_sampling_interval env_samples_before_logging rid
       sampling_interval_arg samples_before_logging_arg =
     (case CPUMonitor of Inl e \<Rightarrow> Inl e | Inr cpu \<Rightarrow>
      case DiskMonitor of Inl e \<Rightarrow> Inl e | Inr disk \<Rightarrow>
      case NetworkMonitor of Inl e \<Rightarrow> Inl e | Inr net \<Rightarrow>
      let ms = [cpu, disk, net];
          (ms, evs) =
            (case GPUMonitor of
               Inr gpu_monitor \<Rightarrow> (ms @ [gpu_monitor], [])
             | Inl e \<Rightarrow>
                 (ms, [Log WARNING
                   (''Skip logging GPU metrics because creating `GPUMonitor` failed with error: ''
                      @ exn_str e @ ''.'')]));
          interval_arg = (case sampling_interval_arg of None \<Rightarrow> 10 | Some x \<Rightarrow> x);
          samples_arg = (case samples_before_logging_arg of None \<Rightarrow> 1 | Some n \<Rightarrow> n)
      in Inr \<lparr>monitors = ms,
              sampling_interval = num_or env_sampling_interval interval_arg,
              samples_before_logging = num_or env_samples_before_logging samples_arg,
              run_id = rid,
              shutdown_event = False,
              process = None,
              logging_step = 0,
              events = evs,
              n_get_run = 0,
              n_is_set = 0,
              n_record_metrics = 0\<rparr>)"

subsection \<open>\<open>start\<close> and \<open>finish\<close>\<close>

text \<open>
  \<open>start(self)\<close>: \<open>spawn\<close> is what creating and starting the thread does (\<open>Some e\<close>: it
  raises \<open>e\<close>). The thread runs \<open>monitor\<close>, which is modelled on its own below.
\<close>

definition start :: "exn option \<Rightarrow> ('s, 'v) monitor_state \<Rightarrow> exn + ('s, 'v) monitor_state" where
  "start spawn st =
     (case spawn of
        None \<Rightarrow>
          Inr (log INFO ''Started monitoring system metrics.''
                 (st\<lparr>process := Some (Thread ''SystemMetricsMonitor'')\<rparr>))
      | Some e \<Rightarrow>
          Inr ((log WARNING (''Failed to start monitoring system metrics: '' @ exn_str e) st)
                 \<lparr>process := None\<rparr>))"

text \<open>\<open>finish(self)\<close>: \<open>join\<close> is what \<open>self._process.join()\<close> does once the thread is over.\<close>

definition finish :: "exn option \<Rightarrow> ('s, 'v) monitor_state \<Rightarrow> exn + ('s, 'v) monitor_state" where
  "finish join st =
     (case process st of
        None \<Rightarrow> Inr st
      | Some t \<Rightarrow>
          (let st = log INFO ''Stopping system metrics monitoring...'' st;
               st = st\<lparr>shutdown_event := True\<rparr>;
               st = (case join of
                       None \<Rightarrow> log INFO ''Successfully terminated system metrics monitoring!'' st
                     | Some e \<Rightarrow>
                         log ERROR (''Error terminating system metrics monitoring process: ''
                                      @ exn_str e @ ''.'') st)
           in Inr (st\<lparr>process := None\<rparr>)))"

subsection \<open>The monitoring loop\<close>

text \<open>
  \<open>self._shutdown_event.is_set()\<close>: the event is set when this object's \<open>finish\<close> has set
  it or another thread has by now; once set it stays set.
\<close>

definition is_set :: "environment \<Rightarrow> ('s, 'v) monitor_state \<Rightarrow> bool \<times> ('s, 'v) monitor_state" where
  "is_set env st =
     (let b = (shutdown_event st \<or> signalled env (n_is_set st))
      in (b, st\<lparr>shutdown_event := b, n_is_set := Suc (n_is_set st)\<rparr>))"

text \<open>\<open>self._shutdown_event.wait(self.sampling_interval)\<close>\<close>

definition wait :: "('s, 'v) monitor_state \<Rightarrow> ('s, 'v) monitor_state" where
  "wait st = st\<lparr>events := events st @ [Wait (sampling_interval st)]\<rparr>"

text \<open>
  \<open>collect_metrics(self)\<close>: every source collects, and the returned dictionary is
  updated with the source's \<open>_metrics\<close>. Sources share no state, so collecting them all
  first is the same as the source's interleaving.
\<close>

definition collect_metrics ::
    "('s, 'v, 'b) source_class \<Rightarrow> ('s, 'v) monitor_state \<Rightarrow> (string \<times> 'b) list \<times> ('s, 'v) monitor_state" where
  "collect_metrics c st =
     (let ms = map (src_collect_metrics c) (monitors st);
          metrics = foldl (\<lambda>metrics monitor. dict_update metrics (src_metrics c monitor)) [] ms
      in (metrics, st\<lparr>monitors := ms\<rparr>))"

definition aggregate_metrics ::
    "('s, 'v, 'b) source_class \<Rightarrow> ('s, 'v) monitor_state \<Rightarrow> (string \<times> 'v) list" where
  "aggregate_metrics c st =
     foldl (\<lambda>metrics monitor. dict_update metrics (src_aggregate_metrics c monitor)) [] (monitors st)"

text \<open>
  \<open>publish_metrics(self, metrics)\<close>: when \<open>record_metrics\<close> raises, the two statements
  after it are not reached.
\<close>

definition publish_metrics ::
    "('s, 'v, 'b) source_class \<Rightarrow> environment \<Rightarrow> (string \<times> 'v) list \<Rightarrow> ('s, 'v) monitor_state \<Rightarrow>
     ('s, 'v) monitor_state flow" where
  "publish_metrics c env metrics st =
     (case record_metrics env (n_record_metrics st) of
        Some e \<Rightarrow>
          Raise e (st\<lparr>events := events st @ [RecordFailed metrics (logging_step st)],
                      n_record_metrics := Suc (n_record_metrics st)\<rparr>)
      | None \<Rightarrow>
          Next (st\<lparr>events := events st @ [Record metrics (logging_step st)],
                   n_record_metrics := Suc (n_record_metrics st),
                   logging_step := logging_step st + 1,
                   monitors := map (src_clear_metrics c) (monitors st)\<rparr>))"

text \<open>
  The inner loop \<open>for _ in range(self.samples_before_logging)\<close> of \<open>monitor\<close>, with the
  number of iterations left. \<open>or\<close> evaluates \<open>is_set()\<close> only when the status is RUNNING.
\<close>

fun sample_loop ::
    "('s, 'v, 'b) source_class \<Rightarrow> environment \<Rightarrow> nat \<Rightarrow> ('s, 'v) monitor_state \<Rightarrow>
     ('s, 'v) monitor_state flow" where
  "sample_loop c env 0 st = Next st"
| "sample_loop c env (Suc n) st =
     (let st = snd (collect_metrics c st);
          st = wait st;
          run = get_run env (n_get_run st);
          st = st\<lparr>n_get_run := Suc (n_get_run st)\<rparr>
      in case run of
           Inl e \<Rightarrow> Return (log WARNING (''Failed to get mlflow run: '' @ exn_str e @ ''.'') st)
         | Inr status \<Rightarrow>
             if status \<noteq> ''RUNNING'' then Return st
             else (case is_set env st of (b, st) \<Rightarrow>
                     if b then Return st else sample_loop c env n st))"

text \<open>The warning of the handler around \<open>publish_metrics\<close>.\<close>

definition failed_msg :: "exn \<Rightarrow> string" where
  "failed_msg e = ''Failed to log system metrics: '' @ exn_str e
                    @ '', this is expected if the experiment/run is already terminated.''"

text \<open>One pass of \<open>while not self._shutdown_event.is_set()\<close>: the test and the body.\<close>

definition monitor_cycle ::
    "('s, 'v, 'b) source_class \<Rightarrow> environment \<Rightarrow> ('s, 'v) monitor_state \<Rightarrow> ('s, 'v) monitor_state flow" where
  "monitor_cycle c env st =
     (case is_set env st of (b, st) \<Rightarrow>
        if b then Return st
        else (case sample_loop c env (nat (samples_before_logging st)) st of
                Next st \<Rightarrow>
                  (let metrics = aggregate_metrics c st
                   in case publish_metrics c env metrics st of
                        Raise e st \<Rightarrow>
                          Return (log WARNING (failed_msg e) st)
                      | r \<Rightarrow> r)
              | r \<Rightarrow> r))"

text \<open>
  The \<open>while\<close> loop for at most \<open>n\<close> passes: \<open>Next\<close> when it is still running after them.
\<close>

fun monitor_cycles ::
    "('s, 'v, 'b) source_class \<Rightarrow> environment \<Rightarrow> nat \<Rightarrow> ('s, 'v) monitor_state \<Rightarrow>
     ('s, 'v) monitor_state flow" where
  "monitor_cycles c env 0 st = Next st"
| "monitor_cycles c env (Suc n) st =
     (case monitor_cycle c env st of
        Next st \<Rightarrow> monitor_cycles c env n st
      | r \<Rightarrow> r)"

text \<open>
  \<open>monitor(self)\<close>, with fuel for the passes of the \<open>while\<close> loop, which may go on for
  ever: \<open>None\<close> when the fuel runs out, \<open>Some (Inr st)\<close> when the method returns in
  state \<open>st\<close>, \<open>Some (Inl e)\<close> when it raises \<open>e\<close>.
\<close>

definition monitor ::
    "('s, 'v, 'b) source_class \<Rightarrow> environment \<Rightarrow> nat \<Rightarrow> ('s, 'v) monitor_state \<Rightarrow>
     (exn + ('s, 'v) monitor_state) option" where
  "monitor c env fuel st =
     (case monitor_cycles c env fuel st of
        Next st \<Rightarrow> None
      | Return st \<Rightarrow> Some (Inr st)
      | Raise e st \<Rightarrow> Some (Inl e))"

text \<open>The batches the sink took, with their steps, and the steps alone.\<close>

fun published :: "'v event list \<Rightarrow> ((string \<times> 'v) list \<times> int) list" where
  "published [] = []"
| "published (Record metrics i # es) = (metrics, i) # published es"
| "published (e # es) = published es"

definition published_steps :: "('s, 'v) monitor_state \<Rightarrow> int list" where
  "published_steps st = map snd (published (events st))"

text \<open>The state a flow ends in, and the sink writes that raised.\<close>

fun flow_state :: "'a flow \<Rightarrow> 'a" where
  "flow_state (Next st) = st"
| "flow_state (Return st) = st"
| "flow_state (Raise e st) = st"

fun is_failed :: "'v event \<Rightarrow> bool" where
  "is_failed (RecordFailed metrics i) = True"
| "is_failed e = False"

fun is_record :: "'v event \<Rightarrow> bool" where
  "is_record (Record metrics i) = True"
| "is_record e = False"

subsection \<open>The sources of the scenario\<close>

text \<open>
  Modelled from the spec: the mock source of the test scenario, which contributes a
  constant value under one declared metric name at every \<open>collect\<close>. Its buffer holds the
  samples since the last \<open>reset\<close>, and \<open>reduce\<close> folds them with the parameter \<open>f\<close> (a
  mean, a maximum).
\<close>

record 'v mock_source =
  metric_name :: string
  const_value :: 'v
  samples :: "'v list"

definition mock_class :: "('v list \<Rightarrow> 'v) \<Rightarrow> ('v mock_source, 'v, 'v list) source_class" where
  "mock_class f =
     \<lparr>src_collect_metrics = (\<lambda>m. m\<lparr>samples := samples m @ [const_value m]\<rparr>),
      src_aggregate_metrics = (\<lambda>m. [(metric_name m, f (samples m))]),
      src_clear_metrics = (\<lambda>m. m\<lparr>samples := []\<rparr>),
      src_metrics = (\<lambda>m. [(metric_name m, samples m)])\<rparr>"

text \<open>
  The state after the first statements of the inner loop's body: every source has
  collected, the wait is over and \<open>get_run\<close> has been called.
\<close>

definition sampled :: "('s, 'v, 'b) source_class \<Rightarrow> ('s, 'v) monitor_state \<Rightarrow> ('s, 'v) monitor_state" where
  "sampled c st = st\<lparr>monitors := map (src_collect_metrics c) (monitors st),
          events := events st @ [Wait (sampling_interval st)],
          n_get_run := Suc (n_get_run st)\<rparr>"

text \<open>
  What one iteration of the inner loop meets, by the numbers of its \<open>get_run\<close> call and
  of its \<open>is_set\<close> call: it passes when the run is RUNNING and the event is not set; it
  stops when the query raises, or the status is not RUNNING, or the event is found set.
\<close>

definition stops_at :: "environment \<Rightarrow> nat \<Rightarrow> nat \<Rightarrow> bool" where
  "stops_at env g k =
     (case get_run env g of
        Inl e \<Rightarrow> True
      | Inr status \<Rightarrow> status \<noteq> ''RUNNING'' \<or> signalled env k)"

definition passes :: "environment \<Rightarrow> nat \<Rightarrow> nat \<Rightarrow> bool" where
  "passes env g k = (get_run env g = Inr ''RUNNING'' \<and> \<not> signalled env k)"

subsection \<open>Concrete inputs\<close>

text \<open>A source class whose reduction is the maximum, a started monitor over one source, and
  a world whose run stays RUNNING while the sink is down.\<close>

definition ex_class :: "(int mock_source, int, int list) source_class" where
  "ex_class = mock_class (\<lambda>xs. fold max xs 0)"

definition ex_state :: "(int mock_source, int) monitor_state" where
  "ex_state = \<lparr>monitors = [\<lparr>metric_name = ''cpu'', const_value = 7, samples = []\<rparr>],
      sampling_interval = 1, samples_before_logging = 1, run_id = ''run'',
      shutdown_event = False, process = Some (Thread ''SystemMetricsMonitor''), logging_step = 0,
      events = [], n_get_run = 0, n_is_set = 0, n_record_metrics = 0\<rparr>"

definition ex_env_sink_down :: environment where
  "ex_env_sink_down = \<lparr>get_run = (\<lambda>n. Inr ''RUNNING''), signalled = (\<lambda>n. False),
      record_metrics = (\<lambda>n. Some (Exception ''down''))\<rparr>"

text \<open>
  Four fresh sources as \<open>__init__\<close> would hold them, the monitor built over them with an
  interval of 1 and 3 samples per publish, the same monitor once started, a world whose
  run is RUNNING for the first \<open>k\<close> queries and FINISHED from then on, and a source class
  that differs from \<open>ex_class\<close> in the \<open>_metrics\<close> attribute alone.
\<close>

definition ex_source :: "string \<Rightarrow> int \<Rightarrow> int mock_source" where
  "ex_source n v = \<lparr>metric_name = n, const_value = v, samples = []\<rparr>"

definition ex_env_until :: "nat \<Rightarrow> environment" where
  "ex_env_until k = \<lparr>get_run = (\<lambda>n. if n < k then Inr ''RUNNING'' else Inr ''FINISHED''),
      signalled = (\<lambda>n. False), record_metrics = (\<lambda>n. None)\<rparr>"

definition ex_scenario_state :: "(int mock_source, int) monitor_state" where
  "ex_scenario_state = \<lparr>monitors = [ex_source ''cpu'' 1, ex_source ''disk'' 2,
        ex_source ''net'' 3, ex_source ''gpu'' 4],
      sampling_interval = 1, samples_before_logging = 3, run_id = ''run'',
      shutdown_event = False, process = None, logging_step = 0,
      events = [], n_get_run = 0, n_is_set = 0, n_record_metrics = 0\<rparr>"

definition ex_started_state :: "(int mock_source, int) monitor_state" where
  "ex_started_state = log INFO ''Started monitoring system metrics.''
      (ex_scenario_state\<lparr>process := Some (Thread ''SystemMetricsMonitor'')\<rparr>)"

definition ex_class_blind :: "(int mock_source, int, int list) source_class" where
  "ex_class_blind = ex_class\<lparr>src_metrics := (\<lambda>m. [])\<rparr>"

section \<open>Properties of Metric\<close>

lemma dict_set_fresh:
  "k \<notin> fst ` set d \<Longrightarrow> dict_set d k v = d @ [(k, v)]"
  by (induction d) auto




text \<open>
  C9. Every Metric built by \<open>Metric.__init__\<close> makes \<open>hash()\<close> raise AttributeError:
  \<open>__hash__\<close> reads \<open>self._dimensions\<close>, and \<open>__init__\<close> stores the tags under \<open>_tags\<close>
  and never sets \<open>_dimensions\<close>; so no Metric is hashable, whatever its five
  constructor arguments are.
\<close>

theorem Metric_hash_raises:
  "Metric_hash h (Metric_init k v ts s tgs) = Inl (AttributeError ''_dimensions'')"
  by (simp add: Metric_hash_def and_then_def Metric_init_def setattr_def getattr_def Let_def)

lemma Metric_init_attrs:
  "attrs (Metric_init k v ts s tgs) =
     [(''_key'', k), (''_value'', v), (''_timestamp'', ts), (''_step'', s),
      (''_tags'', py_or tgs (PyDict []))]"
  by (simp add: Metric_init_def setattr_def Let_def)





lemma Metric_init_falsy_tags:
  "\<not> truthy tgs \<Longrightarrow> tags (Metric_init k v ts s tgs) = Inr (PyDict [])"
  by (simp add: tags_def getattr_def Metric_init_attrs py_or_def)

section \<open>Properties of the monitoring loop\<close>

lemma published_append [simp]: "published (es @ fs) = published es @ published fs"
  by (induction es rule: published.induct) auto

lemma sample_loop_Suc:
  "sample_loop c env (Suc n) st =
     (case get_run env (n_get_run st) of
        Inl e \<Rightarrow> Return (log WARNING (''Failed to get mlflow run: '' @ exn_str e @ ''.'') (sampled c st))
      | Inr status \<Rightarrow>
          if status \<noteq> ''RUNNING'' then Return (sampled c st)
          else if shutdown_event st \<or> signalled env (n_is_set st)
            then Return ((sampled c st)\<lparr>shutdown_event := True, n_is_set := Suc (n_is_set st)\<rparr>)
            else sample_loop c env n ((sampled c st)\<lparr>shutdown_event := False, n_is_set := Suc (n_is_set st)\<rparr>))"
  by (simp add: Let_def collect_metrics_def wait_def is_set_def sampled_def split: sum.splits)

lemma sample_loop_frame:
  "sample_loop c env k st = r \<Longrightarrow>
     (\<forall>e st'. r \<noteq> Raise e st') \<and>
     logging_step (flow_state r) = logging_step st \<and>
     n_record_metrics (flow_state r) = n_record_metrics st \<and>
     sampling_interval (flow_state r) = sampling_interval st \<and>
     samples_before_logging (flow_state r) = samples_before_logging st \<and>
     process (flow_state r) = process st \<and>
     run_id (flow_state r) = run_id st \<and>
     published (events (flow_state r)) = published (events st) \<and>
     filter is_failed (events (flow_state r)) = filter is_failed (events st)"
proof (induction k arbitrary: st r)
  case 0
  then show ?case by auto
next
  case (Suc k)
  show ?case
  proof (cases "get_run env (n_get_run st)")
    case (Inl e)
    with Suc.prems show ?thesis
      by (auto simp: sample_loop_Suc sampled_def log_def simp del: sample_loop.simps)
  next
    case (Inr status)
    show ?thesis
    proof (cases "status = ''RUNNING'' \<and> \<not> shutdown_event st \<and> \<not> signalled env (n_is_set st)")
      case False
      with Suc.prems Inr show ?thesis
        by (auto simp: sample_loop_Suc sampled_def simp del: sample_loop.simps split: if_splits)
    next
      case True
      with Suc.prems Inr have "sample_loop c env k ((sampled c st)\<lparr>shutdown_event := False, n_is_set := Suc (n_is_set st)\<rparr>) = r"
        by (simp add: sample_loop_Suc del: sample_loop.simps)
      from Suc.IH [OF this] show ?thesis by (simp add: sampled_def)
    qed
  qed
qed


lemma monitor_cycle_unfold:
  "monitor_cycle c env st =
     (if shutdown_event st \<or> signalled env (n_is_set st)
      then Return (st\<lparr>shutdown_event := True, n_is_set := Suc (n_is_set st)\<rparr>)
      else
        (case sample_loop c env (nat (samples_before_logging st))
                (st\<lparr>shutdown_event := False, n_is_set := Suc (n_is_set st)\<rparr>) of
           Next st2 \<Rightarrow>
             (case record_metrics env (n_record_metrics st2) of
                Some e \<Rightarrow>
                  Return (st2\<lparr>events := events st2 @
                              [RecordFailed (aggregate_metrics c st2) (logging_step st2),
                               Log WARNING (failed_msg e)],
                            n_record_metrics := Suc (n_record_metrics st2)\<rparr>)
              | None \<Rightarrow>
                  Next (st2\<lparr>events := events st2 @ [Record (aggregate_metrics c st2) (logging_step st2)],
                          n_record_metrics := Suc (n_record_metrics st2),
                          logging_step := logging_step st2 + 1,
                          monitors := map (src_clear_metrics c) (monitors st2)\<rparr>))
         | r \<Rightarrow> r))"
  by (simp add: monitor_cycle_def is_set_def Let_def publish_metrics_def log_def failed_msg_def
        split: flow.splits option.splits)

lemma monitor_cycle_outcome:
  assumes "monitor_cycle c env st = r"
  shows "(\<exists>st'. r = Return st' \<and>
            logging_step st' = logging_step st \<and>
            n_record_metrics st' = n_record_metrics st \<and>
            published (events st') = published (events st) \<and>
            filter is_failed (events st') = filter is_failed (events st) \<and>
            sampling_interval st' = sampling_interval st \<and>
            samples_before_logging st' = samples_before_logging st \<and>
            process st' = process st \<and> run_id st' = run_id st)
       \<or> (\<exists>st2 e. r = Return (st2\<lparr>events := events st2 @
                              [RecordFailed (aggregate_metrics c st2) (logging_step st),
                               Log WARNING (failed_msg e)],
                            n_record_metrics := Suc (n_record_metrics st)\<rparr>) \<and>
            record_metrics env (n_record_metrics st) = Some e \<and>
            logging_step st2 = logging_step st \<and>
            published (events st2) = published (events st) \<and>
            filter is_failed (events st2) = filter is_failed (events st) \<and>
            sampling_interval st2 = sampling_interval st \<and>
            samples_before_logging st2 = samples_before_logging st \<and>
            process st2 = process st \<and> run_id st2 = run_id st)
       \<or> (\<exists>st2. r = Next (st2\<lparr>events := events st2 @
                              [Record (aggregate_metrics c st2) (logging_step st)],
                          n_record_metrics := Suc (n_record_metrics st),
                          logging_step := logging_step st + 1,
                          monitors := map (src_clear_metrics c) (monitors st2)\<rparr>) \<and>
            record_metrics env (n_record_metrics st) = None \<and>
            logging_step st2 = logging_step st \<and>
            published (events st2) = published (events st) \<and>
            filter is_failed (events st2) = filter is_failed (events st) \<and>
            sampling_interval st2 = sampling_interval st \<and>
            samples_before_logging st2 = samples_before_logging st \<and>
            process st2 = process st \<and> run_id st2 = run_id st)"
proof (cases "shutdown_event st \<or> signalled env (n_is_set st)")
  case True
  with assms show ?thesis by (auto simp: monitor_cycle_unfold)
next
  case False
  define st1 where "st1 = st\<lparr>shutdown_event := False, n_is_set := Suc (n_is_set st)\<rparr>"
  define r1 where "r1 = sample_loop c env (nat (samples_before_logging st)) st1"
  have st1: "sampling_interval st1 = sampling_interval st"
    "samples_before_logging st1 = samples_before_logging st"
    "process st1 = process st" "run_id st1 = run_id st"
    "logging_step st1 = logging_step st" "n_record_metrics st1 = n_record_metrics st"
    "events st1 = events st"
    by (simp_all add: st1_def)
  note fr = sample_loop_frame [OF r1_def [symmetric], unfolded st1]
  have u: "r = (case r1 of
           Next st2 \<Rightarrow>
             (case record_metrics env (n_record_metrics st2) of
                Some e \<Rightarrow>
                  Return (st2\<lparr>events := events st2 @
                              [RecordFailed (aggregate_metrics c st2) (logging_step st2),
                               Log WARNING (failed_msg e)],
                            n_record_metrics := Suc (n_record_metrics st2)\<rparr>)
              | None \<Rightarrow>
                  Next (st2\<lparr>events := events st2 @ [Record (aggregate_metrics c st2) (logging_step st2)],
                          n_record_metrics := Suc (n_record_metrics st2),
                          logging_step := logging_step st2 + 1,
                          monitors := map (src_clear_metrics c) (monitors st2)\<rparr>))
         | r \<Rightarrow> r)"
    using assms False unfolding monitor_cycle_unfold r1_def st1_def by simp
  show ?thesis
  proof (cases r1)
    case (Next st2)
    note n = this
    show ?thesis
    proof (cases "record_metrics env (n_record_metrics st2)")
      case None
      with u n fr have "r = Next (st2\<lparr>events := events st2 @
                              [Record (aggregate_metrics c st2) (logging_step st)],
                          n_record_metrics := Suc (n_record_metrics st),
                          logging_step := logging_step st + 1,
                          monitors := map (src_clear_metrics c) (monitors st2)\<rparr>)"
        by simp
      moreover from None n fr have "record_metrics env (n_record_metrics st) = None" by simp
      ultimately show ?thesis using n fr
        by (intro disjI2 exI [of _ st2]) simp
    next
      case (Some e)
      with u n fr have "r = Return (st2\<lparr>events := events st2 @
                              [RecordFailed (aggregate_metrics c st2) (logging_step st),
                               Log WARNING (failed_msg e)],
                            n_record_metrics := Suc (n_record_metrics st)\<rparr>)"
        by simp
      moreover from Some n fr have "record_metrics env (n_record_metrics st) = Some e" by simp
      ultimately show ?thesis using n fr
        by (intro disjI2 disjI1 exI [of _ st2] exI [of _ e]) simp
    qed
  next
    case (Return st2)
    with u fr show ?thesis by simp
  next
    case (Raise e st2)
    with fr show ?thesis by simp
  qed
qed

lemma upto_snoc_step: "(i::int) \<le> j \<Longrightarrow> i # [i + 1..j] = [i..j]"
  by (simp add: upto_rec1)

lemma monitor_cycles_steps:
  "monitor_cycles c env n st = r \<Longrightarrow>
     (\<forall>e st'. r \<noteq> Raise e st') \<and>
     logging_step st \<le> logging_step (flow_state r) \<and>
     published_steps (flow_state r) =
       published_steps st @ [logging_step st .. logging_step (flow_state r) - 1] \<and>
     sampling_interval (flow_state r) = sampling_interval st \<and>
     samples_before_logging (flow_state r) = samples_before_logging st \<and>
     process (flow_state r) = process st \<and> run_id (flow_state r) = run_id st"
proof (induction n arbitrary: st r)
  case 0
  then show ?case by auto
next
  case (Suc n)
  define r1 where "r1 = monitor_cycle c env st"
  from monitor_cycle_outcome [OF r1_def [symmetric]]
  consider (ret) st' where "r1 = Return st'" "logging_step st' = logging_step st"
        "published (events st') = published (events st)"
        "sampling_interval st' = sampling_interval st"
        "samples_before_logging st' = samples_before_logging st"
        "process st' = process st" "run_id st' = run_id st"
    | (cont) st2 st' where "r1 = Next st'"
        "st' = st2\<lparr>events := events st2 @ [Record (aggregate_metrics c st2) (logging_step st)],
                          n_record_metrics := Suc (n_record_metrics st),
                          logging_step := logging_step st + 1,
                          monitors := map (src_clear_metrics c) (monitors st2)\<rparr>"
        "published (events st2) = published (events st)"
        "sampling_interval st2 = sampling_interval st"
        "samples_before_logging st2 = samples_before_logging st"
        "process st2 = process st" "run_id st2 = run_id st"
    by (elim disjE exE conjE) (simp_all add: published_steps_def)
  then show ?case
  proof cases
    case ret
    with Suc.prems have "r = Return st'" by (simp add: r1_def [symmetric])
    with ret show ?thesis by (simp add: published_steps_def)
  next
    case cont
    with Suc.prems have "monitor_cycles c env n st' = r" by (simp add: r1_def [symmetric])
    note ih = Suc.IH [OF this]
    have s: "logging_step st' = logging_step st + 1"
      "published_steps st' = published_steps st @ [logging_step st]"
      "sampling_interval st' = sampling_interval st"
      "samples_before_logging st' = samples_before_logging st"
      "process st' = process st" "run_id st' = run_id st"
      using cont by (simp_all add: published_steps_def)
    from ih have le: "logging_step st + 1 \<le> logging_step (flow_state r)" by (simp add: s)
    have "[logging_step st] @ [logging_step st + 1 .. logging_step (flow_state r) - 1]
            = [logging_step st .. logging_step (flow_state r) - 1]"
      using le by (simp add: upto_snoc_step)
    with ih le show ?thesis by (simp add: s)
  qed
qed


lemma monitor_cycles_failed:
  "monitor_cycles c env n st = r \<Longrightarrow>
     filter is_failed (events (flow_state r)) = filter is_failed (events st) \<or>
     (\<exists>st' es m e. r = Return st' \<and>
        events st' = es @ [RecordFailed m (logging_step st'), Log WARNING (failed_msg e)] \<and>
        filter is_failed es = filter is_failed (events st))"
proof (induction n arbitrary: st r)
  case 0
  then show ?case by auto
next
  case (Suc n)
  define r1 where "r1 = monitor_cycle c env st"
  from monitor_cycle_outcome [OF r1_def [symmetric]]
  consider (ret) st' where "r1 = Return st'"
        "filter is_failed (events st') = filter is_failed (events st)"
    | (fail) st2 st' e where "r1 = Return st'"
        "st' = st2\<lparr>events := events st2 @
                              [RecordFailed (aggregate_metrics c st2) (logging_step st),
                               Log WARNING (failed_msg e)],
                            n_record_metrics := Suc (n_record_metrics st)\<rparr>"
        "logging_step st2 = logging_step st"
        "filter is_failed (events st2) = filter is_failed (events st)"
    | (cont) st2 st' where "r1 = Next st'"
        "st' = st2\<lparr>events := events st2 @ [Record (aggregate_metrics c st2) (logging_step st)],
                          n_record_metrics := Suc (n_record_metrics st),
                          logging_step := logging_step st + 1,
                          monitors := map (src_clear_metrics c) (monitors st2)\<rparr>"
        "filter is_failed (events st2) = filter is_failed (events st)"
    by (elim disjE exE conjE) simp_all
  then show ?case
  proof cases
    case ret
    with Suc.prems have "r = Return st'" by (simp add: r1_def [symmetric])
    with ret show ?thesis by simp
  next
    case fail
    with Suc.prems have r: "r = Return st'" by (simp add: r1_def [symmetric])
    have "events st' = events st2 @ [RecordFailed (aggregate_metrics c st2) (logging_step st'),
            Log WARNING (failed_msg e)]"
      using fail by simp
    with r fail(4) show ?thesis by blast
  next
    case cont
    with Suc.prems have "monitor_cycles c env n st' = r" by (simp add: r1_def [symmetric])
    note ih = Suc.IH [OF this]
    have "filter is_failed (events st') = filter is_failed (events st)"
      using cont by simp
    with ih show ?thesis by simp
  qed
qed

lemma monitor_cycles_more_fuel:
  "monitor_cycles c env n st = Return st' \<Longrightarrow> monitor_cycles c env (n + k) st = Return st'"
proof (induction n arbitrary: st)
  case 0
  then show ?case by simp
next
  case (Suc n)
  then show ?case by (cases "monitor_cycle c env st") auto
qed

lemma finish_after_exit:
  "process st = Some t \<Longrightarrow>
     finish None st = Inr (st\<lparr>events := events st @
         [Log INFO ''Stopping system metrics monitoring...'',
          Log INFO ''Successfully terminated system metrics monitoring!''],
        shutdown_event := True, process := None\<rparr>)"
  by (simp add: finish_def log_def)

text \<open>
  C3. When a sink write raises during the monitoring loop (no write had failed before),
  the loop returns normally, for this and any larger fuel: no exception reaches the
  caller. The failed write and the warning logged for it are the last two events, so there
  is no retry; the failed write carried the value \<open>_logging_step\<close> still has, which
  counts the successful publishes only. The task handle is untouched, and a \<open>finish()\<close>
  afterwards, whose join returns at once since the thread is over, also returns
  normally, clears the handle and leaves \<open>_logging_step\<close> alone.
\<close>

theorem sink_failure_stops_monitor:
  assumes "filter is_failed (events st) = []"
      and "filter is_failed (events (flow_state (monitor_cycles c env n st))) \<noteq> []"
  shows "\<exists>st' es m e.
           (\<forall>k. monitor c env (n + k) st = Some (Inr st')) \<and>
           events st' = es @ [RecordFailed m (logging_step st'), Log WARNING (failed_msg e)] \<and>
           filter is_failed es = [] \<and>
           published_steps st' = published_steps st @ [logging_step st .. logging_step st' - 1] \<and>
           process st' = process st \<and>
           (\<forall>t. process st' = Some t \<longrightarrow>
              (\<exists>st''. finish None st' = Inr st'' \<and> process st'' = None \<and> shutdown_event st'' \<and>
                 logging_step st'' = logging_step st' \<and>
                 events st'' = events st' @
                   [Log INFO ''Stopping system metrics monitoring...'',
                    Log INFO ''Successfully terminated system metrics monitoring!'']))"
proof -
  define r where "r = monitor_cycles c env n st"
  from monitor_cycles_failed [OF r_def [symmetric]] assms
  obtain st' es m e where r: "r = Return st'"
    and ev: "events st' = es @ [RecordFailed m (logging_step st'), Log WARNING (failed_msg e)]"
    and es: "filter is_failed es = []"
    unfolding r_def [symmetric] by auto
  have fuel: "monitor c env (n + k) st = Some (Inr st')" for k
    using monitor_cycles_more_fuel [of c env n st st' k] r by (simp add: monitor_def r_def)
  from monitor_cycles_steps [OF r_def [symmetric]] r
  have st: "published_steps st' = published_steps st @ [logging_step st .. logging_step st' - 1]"
    "process st' = process st"
    by simp_all
  have fin: "\<exists>st''. finish None st' = Inr st'' \<and> process st'' = None \<and> shutdown_event st'' \<and>
                 logging_step st'' = logging_step st' \<and>
                 events st'' = events st' @
                   [Log INFO ''Stopping system metrics monitoring...'',
                    Log INFO ''Successfully terminated system metrics monitoring!'']"
    if "process st' = Some t" for t
    using finish_after_exit [OF that] by simp
  from fuel ev es st fin show ?thesis by blast
qed

theorem sink_failure_stops_monitor_witness:
  "filter is_failed (events ex_state) = [] \<and>
   filter is_failed (events (flow_state (monitor_cycles ex_class ex_env_sink_down 1 ex_state))) \<noteq> [] \<and>
   (\<exists>st'. monitor ex_class ex_env_sink_down 1 ex_state = Some (Inr st') \<and>
      (\<exists>st''. finish None st' = Inr st'' \<and> process st'' = None))"
proof -
  have h1: "filter is_failed (events ex_state) = []"
    by (simp add: ex_state_def)
  have h2: "filter is_failed
      (events (flow_state (monitor_cycles ex_class ex_env_sink_down 1 ex_state))) \<noteq> []"
    by code_simp
  from sink_failure_stops_monitor [OF h1 h2]
  obtain st' where m: "\<forall>k. monitor ex_class ex_env_sink_down (1 + k) ex_state = Some (Inr st')"
    and p: "process st' = process ex_state"
    and f: "\<forall>t. process st' = Some t \<longrightarrow> (\<exists>st''. finish None st' = Inr st'' \<and> process st'' = None
        \<and> shutdown_event st'' \<and> logging_step st'' = logging_step st'
        \<and> events st'' = events st' @
                   [Log INFO ''Stopping system metrics monitoring...'',
                    Log INFO ''Successfully terminated system metrics monitoring!''])"
    by blast
  from m have "monitor ex_class ex_env_sink_down 1 ex_state = Some (Inr st')"
    using spec [OF m, of 0] by simp
  moreover from p have "process st' = Some (Thread ''SystemMetricsMonitor'')"
    by (simp add: ex_state_def)
  with f have "\<exists>st''. finish None st' = Inr st'' \<and> process st'' = None" by blast
  ultimately show ?thesis using h1 h2 by blast
qed

lemma init_fields:
  "SystemMetricsMonitor_init cpu disk net gpu ei es rid ia sa = Inr st0 \<Longrightarrow>
     logging_step st0 = 0 \<and> events st0 = (case gpu of Inr g \<Rightarrow> [] | Inl e \<Rightarrow>
         [Log WARNING (''Skip logging GPU metrics because creating `GPUMonitor` failed with error: ''
                      @ exn_str e @ ''.'')]) \<and>
     process st0 = None \<and> \<not> shutdown_event st0 \<and>
     n_get_run st0 = 0 \<and> n_is_set st0 = 0 \<and> n_record_metrics st0 = 0 \<and> run_id st0 = rid \<and>
     sampling_interval st0 = num_or ei (case ia of None \<Rightarrow> 10 | Some x \<Rightarrow> x) \<and>
     samples_before_logging st0 = num_or es (case sa of None \<Rightarrow> 1 | Some n \<Rightarrow> n)"
  by (auto simp: SystemMetricsMonitor_init_def Let_def split: sum.splits)

lemma start_fields:
  "start spawn st = Inr st' \<Longrightarrow>
     logging_step st' = logging_step st \<and> published (events st') = published (events st) \<and>
     monitors st' = monitors st \<and> sampling_interval st' = sampling_interval st \<and>
     samples_before_logging st' = samples_before_logging st \<and>
     shutdown_event st' = shutdown_event st"
  by (auto simp: start_def log_def split: option.splits)

lemma finish_fields:
  "finish join st = Inr st' \<Longrightarrow>
     logging_step st' = logging_step st \<and> published (events st') = published (events st) \<and>
     monitors st' = monitors st \<and> sampling_interval st' = sampling_interval st \<and>
     samples_before_logging st' = samples_before_logging st \<and> process st' = None"
  by (auto simp: finish_def log_def Let_def split: option.splits)

lemma ex_init:
  "SystemMetricsMonitor_init (Inr (ex_source ''cpu'' 1)) (Inr (ex_source ''disk'' 2))
     (Inr (ex_source ''net'' 3)) (Inr (ex_source ''gpu'' 4)) None None ''run'' (Some 1) (Some 3)
     = Inr ex_scenario_state"
  by (simp add: SystemMetricsMonitor_init_def ex_scenario_state_def num_or_def)

lemma finish_returns: "\<exists>st'. finish join st = Inr st'"
  by (simp add: finish_def Let_def split: option.splits)

text \<open>
  C2. Over the lifetime of one monitor (construction, \<open>start\<close>, any number of passes of the
  monitoring loop, whether it has returned by then or not, and \<open>finish\<close>) the steps of the
  successful publishes are exactly 0, 1, 2, ... up to \<open>_logging_step - 1\<close>:
  \<open>_logging_step\<close> is 0 after \<open>__init__\<close> and after \<open>start\<close>, a successful sink write in
  \<open>publish_metrics\<close> is made with the current value and adds exactly 1 to it, a failed
  write leaves it as it is, and \<open>finish\<close> does not change it.
\<close>

theorem logging_step_counts_publishes:
  assumes "SystemMetricsMonitor_init cpu disk net gpu ei es rid ia sa = Inr st0"
      and "start spawn st0 = Inr st1"
      and "monitor_cycles c env n st1 = r"
      and "finish join (flow_state r) = Inr st3"
  shows "logging_step st0 = 0 \<and> logging_step st1 = 0 \<and>
         published_steps (flow_state r) = [0 .. logging_step (flow_state r) - 1] \<and>
         logging_step st3 = logging_step (flow_state r) \<and>
         published_steps st3 = published_steps (flow_state r) \<and>
         (\<forall>m st st'. publish_metrics c env m st = Next st' \<longrightarrow>
            logging_step st' = logging_step st + 1 \<and>
            published_steps st' = published_steps st @ [logging_step st]) \<and>
         (\<forall>m st e st'. publish_metrics c env m st = Raise e st' \<longrightarrow>
            logging_step st' = logging_step st \<and> published_steps st' = published_steps st)"
proof -
  note i = init_fields [OF assms(1)]
  note s = start_fields [OF assms(2)]
  have p0: "published_steps st1 = []"
    using i s by (cases gpu) (simp_all add: published_steps_def)
  have l1: "logging_step st1 = 0" using i s by simp
  from monitor_cycles_steps [OF assms(3)] p0 l1
  have "published_steps (flow_state r) = [0 .. logging_step (flow_state r) - 1]" by simp
  moreover note f = finish_fields [OF assms(4)]
  moreover have "logging_step st' = logging_step st + 1 \<and>
            published_steps st' = published_steps st @ [logging_step st]"
    if "publish_metrics c env m st = Next st'" for m st st'
    using that by (auto simp: publish_metrics_def published_steps_def split: option.splits)
  moreover have "logging_step st' = logging_step st \<and> published_steps st' = published_steps st"
    if "publish_metrics c env m st = Raise e st'" for m st st' e
    using that by (auto simp: publish_metrics_def published_steps_def split: option.splits)
  ultimately show ?thesis using i l1 by (simp add: published_steps_def)
qed

theorem logging_step_counts_publishes_witness:
  "SystemMetricsMonitor_init (Inr (ex_source ''cpu'' 1)) (Inr (ex_source ''disk'' 2))
     (Inr (ex_source ''net'' 3)) (Inr (ex_source ''gpu'' 4)) None None ''run'' (Some 1) (Some 3)
     = Inr ex_scenario_state \<and>
   start None ex_scenario_state = Inr ex_started_state \<and>
   published_steps (flow_state (monitor_cycles ex_class (ex_env_until 7) 3 ex_started_state)) = [0, 1]"
proof -
  let ?r = "monitor_cycles ex_class (ex_env_until 7) 3 ex_started_state"
  have h2: "start None ex_scenario_state = Inr ex_started_state"
    by (simp add: start_def ex_started_state_def)
  obtain st3 where h4: "finish None (flow_state ?r) = Inr st3"
    using finish_returns by blast
  from logging_step_counts_publishes [OF ex_init h2 refl h4]
  have "published_steps (flow_state ?r) = [0 .. logging_step (flow_state ?r) - 1]"
    by blast
  moreover have "logging_step (flow_state ?r) = 2"
    by code_simp
  ultimately have "published_steps (flow_state ?r) = [0, 1]"
    by (simp add: upto_rec1)
  with ex_init h2 show ?thesis by blast
qed

lemma funpow_Suc_inner: "(f ^^ Suc n) (f x) = (f ^^ Suc (Suc n)) x"
  by (simp add: funpow_swap1)

lemma sample_loop_stops:
  assumes "\<not> shutdown_event st" and "i < k"
      and "\<forall>j<i. passes env (n_get_run st + j) (n_is_set st + j)"
      and "stops_at env (n_get_run st + i) (n_is_set st + i)"
  shows "\<exists>st'. sample_loop c env k st = Return st' \<and>
           monitors st' = map (src_collect_metrics c ^^ Suc i) (monitors st) \<and>
           n_get_run st' = n_get_run st + Suc i"
  using assms
proof (induction i arbitrary: st k)
  case 0
  then obtain k' where k: "k = Suc k'" by (cases k) auto
  from 0 show ?case
    by (auto simp: k sample_loop_Suc stops_at_def sampled_def log_def
        simp del: sample_loop.simps split: sum.splits)
next
  case (Suc i)
  then obtain k' where k: "k = Suc k'" by (cases k) auto
  define st1 where "st1 = (sampled c st)\<lparr>shutdown_event := False, n_is_set := Suc (n_is_set st)\<rparr>"
  from Suc.prems(3) have p0: "passes env (n_get_run st) (n_is_set st)"
    by (metis add.right_neutral zero_less_Suc)
  have step: "sample_loop c env k st = sample_loop c env k' st1"
    using p0 Suc.prems(1)
    by (simp add: k sample_loop_Suc passes_def st1_def del: sample_loop.simps)
  have f: "n_get_run st1 = Suc (n_get_run st)" "n_is_set st1 = Suc (n_is_set st)"
    "\<not> shutdown_event st1" "monitors st1 = map (src_collect_metrics c) (monitors st)"
    by (simp_all add: st1_def sampled_def)
  have "\<exists>st'. sample_loop c env k' st1 = Return st' \<and>
           monitors st' = map (src_collect_metrics c ^^ Suc i) (monitors st1) \<and>
           n_get_run st' = n_get_run st1 + Suc i"
  proof (rule Suc.IH)
    show "\<not> shutdown_event st1" by (simp add: f)
    show "i < k'" using Suc.prems(2) k by simp
    show "\<forall>j<i. passes env (n_get_run st1 + j) (n_is_set st1 + j)"
      using Suc.prems(3) by (auto simp: f dest: spec [of _ "Suc j" for j])
    show "stops_at env (n_get_run st1 + i) (n_is_set st1 + i)"
      using Suc.prems(4) by (simp add: f)
  qed
  then show ?case
    by (auto simp: step f funpow_Suc_inner simp del: funpow.simps)
qed


lemma monitor_cycles_add:
  "monitor_cycles c env m st0 = Next st \<Longrightarrow>
     monitor_cycles c env (m + n) st0 = monitor_cycles c env n st"
proof (induction m arbitrary: st0)
  case 0
  then show ?case by simp
next
  case (Suc m)
  then show ?case by (cases "monitor_cycle c env st0") auto
qed

text \<open>
  C4. At the head of any pass of the outer loop (after \<open>m\<close> complete passes, with the
  shutdown event not set), let the first \<open>i\<close> iterations of the inner loop pass and let
  iteration \<open>i\<close>, still within \<open>samples_before_logging\<close>, stop: the status query raises, or
  the status is not RUNNING, or the event is found set after the wait. Then \<open>monitor\<close>
  returns normally for any fuel that reaches this pass, without a call of the sink
  (no new batch, no failed write, \<open>_logging_step\<close> unchanged), and the sources have
  collected \<open>i + 1\<close> times and were not reset.
\<close>

theorem incomplete_cycle_not_published:
  assumes "monitor_cycles c env m st0 = Next st"
      and "\<not> shutdown_event st" and "\<not> signalled env (n_is_set st)"
      and "i < nat (samples_before_logging st)"
      and "\<forall>j<i. passes env (n_get_run st + j) (Suc (n_is_set st) + j)"
      and "stops_at env (n_get_run st + i) (Suc (n_is_set st) + i)"
  shows "\<exists>st'. (\<forall>fuel. monitor c env (m + Suc fuel) st0 = Some (Inr st')) \<and>
           n_record_metrics st' = n_record_metrics st \<and>
           published (events st') = published (events st) \<and>
           filter is_failed (events st') = filter is_failed (events st) \<and>
           logging_step st' = logging_step st \<and>
           monitors st' = map (src_collect_metrics c ^^ Suc i) (monitors st)"
proof -
  define st1 where "st1 = st\<lparr>shutdown_event := False, n_is_set := Suc (n_is_set st)\<rparr>"
  have f: "n_get_run st1 = n_get_run st" "n_is_set st1 = Suc (n_is_set st)"
    "\<not> shutdown_event st1" "monitors st1 = monitors st"
    "logging_step st1 = logging_step st" "n_record_metrics st1 = n_record_metrics st"
    "events st1 = events st"
    by (simp_all add: st1_def)
  have "\<exists>st'. sample_loop c env (nat (samples_before_logging st)) st1 = Return st' \<and>
           monitors st' = map (src_collect_metrics c ^^ Suc i) (monitors st1) \<and>
           n_get_run st' = n_get_run st1 + Suc i"
    by (rule sample_loop_stops) (use assms in \<open>simp_all add: f\<close>)
  then obtain st' where sl: "sample_loop c env (nat (samples_before_logging st)) st1 = Return st'"
    and ms: "monitors st' = map (src_collect_metrics c ^^ Suc i) (monitors st)"
    by (auto simp: f)
  note fr = sample_loop_frame [OF sl, unfolded f]
  have "monitor_cycle c env st = Return st'"
    using assms(2,3) sl by (simp add: monitor_cycle_unfold st1_def)
  then have "monitor_cycles c env (Suc fuel) st = Return st'" for fuel
    by simp
  then have "monitor c env (m + Suc fuel) st0 = Some (Inr st')" for fuel
    using monitor_cycles_add [OF assms(1), of "Suc fuel"] by (simp add: monitor_def)
  with fr ms show ?thesis by auto
qed

theorem incomplete_cycle_not_published_witness:
  "\<exists>st st'. monitor_cycles ex_class (ex_env_until 4) 1 ex_started_state = Next st \<and>
      \<not> shutdown_event st \<and> \<not> signalled (ex_env_until 4) (n_is_set st) \<and>
      (1::nat) < nat (samples_before_logging st) \<and>
      passes (ex_env_until 4) (n_get_run st) (Suc (n_is_set st)) \<and>
      stops_at (ex_env_until 4) (n_get_run st + 1) (Suc (n_is_set st) + 1) \<and>
      monitor ex_class (ex_env_until 4) 2 ex_started_state = Some (Inr st') \<and>
      n_record_metrics st' = n_record_metrics st \<and>
      published (events st') = published (events st) \<and>
      logging_step st' = 1"
proof -
  define st where "st = flow_state (monitor_cycles ex_class (ex_env_until 4) 1 ex_started_state)"
  have h1: "monitor_cycles ex_class (ex_env_until 4) 1 ex_started_state = Next st"
    unfolding st_def by code_simp
  have h2: "\<not> shutdown_event st" unfolding st_def by code_simp
  have h3: "\<not> signalled (ex_env_until 4) (n_is_set st)" by (simp add: ex_env_until_def)
  have h4: "(1::nat) < nat (samples_before_logging st)" unfolding st_def by code_simp
  have p: "passes (ex_env_until 4) (n_get_run st) (Suc (n_is_set st))"
    unfolding st_def by code_simp
  then have h5: "\<forall>j<1. passes (ex_env_until 4) (n_get_run st + j) (Suc (n_is_set st) + j)"
    by simp
  have h6: "stops_at (ex_env_until 4) (n_get_run st + 1) (Suc (n_is_set st) + 1)"
    unfolding st_def by code_simp
  have l: "logging_step st = 1" unfolding st_def by code_simp
  from incomplete_cycle_not_published [OF h1 h2 h3 h4 h5 h6]
  obtain st' where m: "\<forall>fuel. monitor ex_class (ex_env_until 4) (1 + Suc fuel) ex_started_state = Some (Inr st')"
    and r: "n_record_metrics st' = n_record_metrics st"
      "published (events st') = published (events st)" "logging_step st' = logging_step st"
    by blast
  have "monitor ex_class (ex_env_until 4) 2 ex_started_state = Some (Inr st')"
    using spec [OF m, of 0] by (simp add: numeral_2_eq_2)
  with h1 h2 h3 h4 p h6 r l show ?thesis by auto
qed

lemma dict_update_single_fresh:
  "k \<notin> fst ` set d \<Longrightarrow> dict_update d [(k, v)] = d @ [(k, v)]"
  by (simp add: dict_update_def dict_set_fresh)

lemma foldl_named_entries:
  "distinct (map nm ms) \<Longrightarrow> fst ` set acc \<inter> nm ` set ms = {} \<Longrightarrow>
     foldl (\<lambda>metrics m. dict_update metrics [(nm m, g m)]) acc ms
       = acc @ map (\<lambda>m. (nm m, g m)) ms"
proof (induction ms arbitrary: acc)
  case Nil
  then show ?case by simp
next
  case (Cons m ms)
  from Cons.prems have fresh: "nm m \<notin> fst ` set acc" by auto
  have "foldl (\<lambda>metrics m. dict_update metrics [(nm m, g m)]) (acc @ [(nm m, g m)]) ms
          = (acc @ [(nm m, g m)]) @ map (\<lambda>m. (nm m, g m)) ms"
  proof (rule Cons.IH)
    show "distinct (map nm ms)" using Cons.prems by simp
    show "fst ` set (acc @ [(nm m, g m)]) \<inter> nm ` set ms = {}"
      using Cons.prems by auto
  qed
  then show ?case by (simp add: dict_update_single_fresh [OF fresh])
qed

lemma aggregate_metrics_mock:
  "distinct (map metric_name (monitors st)) \<Longrightarrow>
     aggregate_metrics (mock_class f) st = map (\<lambda>m. (metric_name m, f (samples m))) (monitors st)"
  using foldl_named_entries [of metric_name "monitors st" "[]" "\<lambda>m. f (samples m)"]
  by (simp add: aggregate_metrics_def mock_class_def)

text \<open>
  C1. With \<open>sampling_interval = 1\<close> and \<open>samples_before_logging = 3\<close>, fresh mock sources
  with distinct metric names that each contribute a constant, a run that is RUNNING at the
  first three status queries and not at the fourth, no shutdown signal and a sink that
  accepts the write, the monitoring loop returns for any fuel of two passes or more, and
  its whole trace is three waits, one publish at step 0 whose batch holds one reduced
  value per source under the source's name, and one more wait: there is no second publish.
\<close>

theorem scenario_one_publish:
  assumes src: "monitors st = ms" "distinct (map metric_name ms)" "\<forall>m \<in> set ms. samples m = []"
      and cfg: "sampling_interval st = 1" "samples_before_logging st = 3"
      and new: "\<not> shutdown_event st" "logging_step st = 0" "events st = []"
               "n_get_run st = 0" "n_is_set st = 0" "n_record_metrics st = 0"
      and run: "get_run env 0 = Inr ''RUNNING''" "get_run env 1 = Inr ''RUNNING''"
               "get_run env 2 = Inr ''RUNNING''" "get_run env 3 = Inr status" "status \<noteq> ''RUNNING''"
      and sig: "\<forall>n \<le> 4. \<not> signalled env n"
      and sink: "record_metrics env 0 = None"
  shows "\<exists>st'. (\<forall>fuel. monitor (mock_class f) env (Suc (Suc fuel)) st = Some (Inr st')) \<and>
           events st' =
             [Wait 1, Wait 1, Wait 1,
              Record (map (\<lambda>m. (metric_name m, f [const_value m, const_value m, const_value m])) ms) 0,
              Wait 1] \<and>
           logging_step st' = 1 \<and> n_record_metrics st' = 1"
proof -
  let ?c = "mock_class f"
  define st1 where "st1 = st\<lparr>shutdown_event := False, n_is_set := Suc 0\<rparr>"
  define col where "col = (\<lambda>m :: 'a mock_source. m\<lparr>samples := samples m @ [const_value m]\<rparr>)"
  have col: "src_collect_metrics ?c = col" by (simp add: mock_class_def col_def)
  have s0: "\<not> signalled env 0" "\<not> signalled env 1" "\<not> signalled env 2" "\<not> signalled env 3"
    "\<not> signalled env 4"
    using sig by simp_all
  define st2 where "st2 = st\<lparr>monitors := map (col \<circ> col \<circ> col) ms,
      events := [Wait 1, Wait 1, Wait 1], n_get_run := 3, shutdown_event := False, n_is_set := 4\<rparr>"
  have sl: "sample_loop ?c env (nat (samples_before_logging st)) st1 = Next st2"
    using src(1) cfg new run s0
    by (simp add: eval_nat_numeral sample_loop_Suc sampled_def st1_def st2_def col
          del: sample_loop.simps(2))
  let ?batch = "map (\<lambda>m. (metric_name m, f [const_value m, const_value m, const_value m])) ms"
  have names: "map metric_name (map (col \<circ> col \<circ> col) ms) = map metric_name ms"
    by (simp add: col_def)
  have m2: "monitors st2 = map (col \<circ> col \<circ> col) ms"
    by (simp add: st2_def)
  have d2: "distinct (map metric_name (monitors st2))"
    unfolding m2 names by (rule src(2))
  have "aggregate_metrics ?c st2
          = map (\<lambda>m. (metric_name m, f (samples m))) (map (col \<circ> col \<circ> col) ms)"
    using aggregate_metrics_mock [OF d2, of f] unfolding m2 .
  also have "\<dots> = ?batch"
    using src(3) by (simp add: col_def)
  finally have agg: "aggregate_metrics ?c st2 = ?batch" .
  define st3 where "st3 = st2\<lparr>events := [Wait 1, Wait 1, Wait 1, Record ?batch 0],
      n_record_metrics := Suc 0, logging_step := 1,
      monitors := map (src_clear_metrics ?c) (monitors st2)\<rparr>"
  have c1: "monitor_cycle ?c env st = Next st3"
    using new s0 sink sl agg
    by (simp add: monitor_cycle_unfold st1_def [symmetric] st3_def) (simp add: st2_def)
  define st' where "st' = sampled ?c (st3\<lparr>shutdown_event := False, n_is_set := 5\<rparr>)"
  have c2: "monitor_cycle ?c env st3 = Return st'"
    using cfg run s0
    by (simp add: monitor_cycle_unfold st3_def st2_def st'_def eval_nat_numeral sample_loop_Suc
          del: sample_loop.simps(2))
  have "monitor (mock_class f) env (Suc (Suc fuel)) st = Some (Inr st')" for fuel
    by (simp add: monitor_def c1 c2)
  moreover have "events st' = [Wait 1, Wait 1, Wait 1, Record ?batch 0, Wait 1]"
    "logging_step st' = 1" "n_record_metrics st' = 1"
    using cfg by (simp_all add: st'_def sampled_def st3_def st2_def)
  ultimately show ?thesis by blast
qed

theorem scenario_one_publish_witness:
  "SystemMetricsMonitor_init (Inr (ex_source ''cpu'' 1)) (Inr (ex_source ''disk'' 2))
     (Inr (ex_source ''net'' 3)) (Inr (ex_source ''gpu'' 4)) None None ''run'' (Some 1) (Some 3)
     = Inr ex_scenario_state \<and>
   (\<exists>st'. monitor ex_class (ex_env_until 3) 2 ex_scenario_state = Some (Inr st') \<and>
      published (events st') = [([(''cpu'', 1), (''disk'', 2), (''net'', 3), (''gpu'', 4)], 0)] \<and>
      logging_step st' = 1)"
proof -
  have "\<exists>st'. (\<forall>fuel. monitor (mock_class (\<lambda>xs. fold max xs 0)) (ex_env_until 3) (Suc (Suc fuel))
                  ex_scenario_state = Some (Inr st')) \<and>
           events st' =
             [Wait 1, Wait 1, Wait 1,
              Record (map (\<lambda>m. (metric_name m,
                  (\<lambda>xs. fold max xs 0) [const_value m, const_value m, const_value m]))
                    (monitors ex_scenario_state)) 0,
              Wait 1] \<and>
           logging_step st' = 1 \<and> n_record_metrics st' = 1"
    by (rule scenario_one_publish [where status = "''FINISHED''"])
       (simp_all add: ex_scenario_state_def ex_source_def ex_env_until_def)
  then obtain st' where m: "\<forall>fuel. monitor ex_class (ex_env_until 3) (Suc (Suc fuel))
                  ex_scenario_state = Some (Inr st')"
    and e: "events st' =
             [Wait 1, Wait 1, Wait 1,
              Record (map (\<lambda>m. (metric_name m,
                  (\<lambda>xs. fold max xs 0) [const_value m, const_value m, const_value m]))
                    (monitors ex_scenario_state)) 0,
              Wait 1]"
    and l: "logging_step st' = 1"
    unfolding ex_class_def by blast
  from m have "monitor ex_class (ex_env_until 3) 2 ex_scenario_state = Some (Inr st')"
    using spec [OF m, of 0] by (simp add: numeral_2_eq_2)
  moreover have "published (events st') = [([(''cpu'', 1), (''disk'', 2), (''net'', 3), (''gpu'', 4)], 0)]"
    by (simp add: e ex_scenario_state_def ex_source_def)
  ultimately show ?thesis using l ex_init by blast
qed

text \<open>
  C6, as stated, fails. Two source classes with the same \<open>collect_metrics\<close>,
  \<open>aggregate_metrics\<close> and \<open>clear_metrics\<close> that differ in the attribute \<open>_metrics\<close> alone
  make \<open>SystemMetricsMonitor.collect_metrics\<close> return different dictionaries: the method
  reads the sample buffer of a source directly.
\<close>

theorem collect_metrics_reads_buffer:
  "src_collect_metrics ex_class_blind = src_collect_metrics ex_class \<and>
   src_aggregate_metrics ex_class_blind = src_aggregate_metrics ex_class \<and>
   src_clear_metrics ex_class_blind = src_clear_metrics ex_class \<and>
   fst (collect_metrics ex_class ex_state) = [(''cpu'', [7])] \<and>
   fst (collect_metrics ex_class_blind ex_state) = [] \<and>
   fst (collect_metrics ex_class_blind ex_state) \<noteq> fst (collect_metrics ex_class ex_state)"
  by (simp add: ex_class_blind_def ex_class_def mock_class_def collect_metrics_def ex_state_def
        dict_update_def)

lemma sample_loop_interface:
  assumes "src_collect_metrics c' = src_collect_metrics c"
  shows "sample_loop c' env k st = sample_loop c env k st"
proof (induction k arbitrary: st)
  case 0
  show ?case by simp
next
  case (Suc k)
  have "sampled c' st = sampled c st" for st :: "('a, 'b) monitor_state"
    by (simp add: sampled_def assms)
  with Suc show ?case
    by (simp add: sample_loop_Suc del: sample_loop.simps(2) cong: sum.case_cong if_cong)
qed

lemma monitor_cycle_interface:
  assumes "src_collect_metrics c' = src_collect_metrics c"
      and "src_aggregate_metrics c' = src_aggregate_metrics c"
      and "src_clear_metrics c' = src_clear_metrics c"
  shows "monitor_cycle c' env st = monitor_cycle c env st"
proof -
  have "aggregate_metrics c' st = aggregate_metrics c st" for st :: "('a, 'b) monitor_state"
    by (simp add: aggregate_metrics_def assms)
  then show ?thesis
    by (simp add: monitor_cycle_unfold sample_loop_interface [OF assms(1)] assms(3)
          cong: flow.case_cong option.case_cong)
qed

text \<open>
  C6, amended. The monitor changes a source only through the source's
  \<open>collect_metrics\<close> and \<open>clear_metrics\<close>, and \<open>aggregate_metrics\<close>, \<open>publish_metrics\<close> and
  the monitoring loop depend on a source only through its three operations: they are the
  same for two source classes that agree on the three, whatever \<open>_metrics\<close> holds. The
  dictionary that \<open>collect_metrics\<close> of the monitor returns is built from the \<open>_metrics\<close>
  attribute of every source, read directly after the source has collected.
\<close>

theorem sources_written_through_interface:
  assumes "src_collect_metrics c' = src_collect_metrics c"
      and "src_aggregate_metrics c' = src_aggregate_metrics c"
      and "src_clear_metrics c' = src_clear_metrics c"
  shows "snd (collect_metrics c' st) = snd (collect_metrics c st) \<and>
         snd (collect_metrics c st) = st\<lparr>monitors := map (src_collect_metrics c) (monitors st)\<rparr> \<and>
         fst (collect_metrics c st) =
           foldl (\<lambda>metrics s. dict_update metrics (src_metrics c s)) []
             (map (src_collect_metrics c) (monitors st)) \<and>
         aggregate_metrics c' st = aggregate_metrics c st \<and>
         aggregate_metrics c st =
           foldl (\<lambda>metrics s. dict_update metrics (src_aggregate_metrics c s)) [] (monitors st) \<and>
         publish_metrics c' env metrics st = publish_metrics c env metrics st \<and>
         monitors (flow_state (publish_metrics c env metrics st)) \<in>
           {monitors st, map (src_clear_metrics c) (monitors st)} \<and>
         monitor_cycles c' env n st = monitor_cycles c env n st \<and>
         monitor c' env n st = monitor c env n st"
proof -
  have cyc: "monitor_cycles c' env n st = monitor_cycles c env n st"
  proof (induction n arbitrary: st)
    case 0
    show ?case by simp
  next
    case (Suc n)
    then show ?case by (simp add: monitor_cycle_interface [OF assms] cong: flow.case_cong)
  qed
  have mon: "monitor c' env n st = monitor c env n st"
    by (simp add: monitor_def cyc)
  have pubm: "monitors (flow_state (publish_metrics c env metrics st)) \<in>
           {monitors st, map (src_clear_metrics c) (monitors st)}"
    by (simp add: publish_metrics_def split: option.splits)
  have pub: "publish_metrics c' env metrics st = publish_metrics c env metrics st"
    by (simp add: publish_metrics_def assms(3) cong: option.case_cong)
  have agg: "aggregate_metrics c' st = aggregate_metrics c st"
    by (simp add: aggregate_metrics_def assms(2))
  have agg': "aggregate_metrics c st =
           foldl (\<lambda>metrics s. dict_update metrics (src_aggregate_metrics c s)) [] (monitors st)"
    by (simp add: aggregate_metrics_def)
  have col: "snd (collect_metrics c' st) = snd (collect_metrics c st)"
    "snd (collect_metrics c st) = st\<lparr>monitors := map (src_collect_metrics c) (monitors st)\<rparr>"
    "fst (collect_metrics c st) =
           foldl (\<lambda>metrics s. dict_update metrics (src_metrics c s)) []
             (map (src_collect_metrics c) (monitors st))"
    by (simp_all add: collect_metrics_def assms(1) Let_def)
  from col agg agg' pub pubm cyc mon show ?thesis by (intro conjI)
qed

theorem sources_written_through_interface_witness:
  "src_collect_metrics ex_class_blind = src_collect_metrics ex_class \<and>
   src_aggregate_metrics ex_class_blind = src_aggregate_metrics ex_class \<and>
   src_clear_metrics ex_class_blind = src_clear_metrics ex_class \<and>
   monitor ex_class_blind (ex_env_until 3) 2 ex_started_state
     = monitor ex_class (ex_env_until 3) 2 ex_started_state \<and>
   snd (collect_metrics ex_class_blind ex_started_state) = snd (collect_metrics ex_class ex_started_state)"
proof -
  have h: "src_collect_metrics ex_class_blind = src_collect_metrics ex_class"
    "src_aggregate_metrics ex_class_blind = src_aggregate_metrics ex_class"
    "src_clear_metrics ex_class_blind = src_clear_metrics ex_class"
    by (simp_all add: ex_class_blind_def)
  from sources_written_through_interface [OF h, of ex_started_state "ex_env_until 3" _ 2] h
  show ?thesis by blast
qed

text \<open>
  C7. When the constructor of \<open>GPUMonitor\<close> raises an exception \<open>e\<close> and the three other
  sources are constructed, \<open>__init__\<close> returns a monitor whose source list is CPU, Disk,
  Network, the only thing logged is the warning that names \<open>e\<close>, and the monitor can be
  started with these three sources.
\<close>

theorem gpu_failure_not_fatal:
  "\<exists>st. SystemMetricsMonitor_init (Inr cpu) (Inr disk) (Inr net) (Inl e) ei es rid ia sa = Inr st \<and>
      monitors st = [cpu, disk, net] \<and>
      events st = [Log WARNING
         (''Skip logging GPU metrics because creating `GPUMonitor` failed with error: ''
            @ exn_str e @ ''.'')] \<and>
      (\<exists>st'. start None st = Inr st' \<and> process st' = Some (Thread ''SystemMetricsMonitor'') \<and>
         monitors st' = [cpu, disk, net])"
  by (simp add: SystemMetricsMonitor_init_def start_def log_def)

text \<open>
  C8. \<open>finish()\<close> never raises. It changes nothing when the task handle is absent: for a
  monitor that was never started, and after a \<open>start()\<close> whose thread spawn raised, which
  \<open>start\<close> catches, logs as a warning and answers by leaving the handle absent. With a
  handle present it sets the shutdown event, joins, logs a join failure as an error
  without raising it, and clears the handle, so that a second \<open>finish()\<close> changes nothing.
\<close>

theorem finish_never_raises:
  "(\<exists>st'. finish join st = Inr st') \<and>
   (process st = None \<longrightarrow> finish join st = Inr st) \<and>
   (\<forall>st0. SystemMetricsMonitor_init cpu disk net gpu ei es rid ia sa = Inr st0 \<longrightarrow>
      finish join st0 = Inr st0) \<and>
   (\<exists>st1. start (Some e) st = Inr st1 \<and> process st1 = None \<and>
      events st1 = events st @
        [Log WARNING (''Failed to start monitoring system metrics: '' @ exn_str e)] \<and>
      finish join st1 = Inr st1) \<and>
   (\<forall>t. process st = Some t \<longrightarrow>
      (\<exists>st'. finish join st = Inr st' \<and> shutdown_event st' \<and> process st' = None \<and>
         events st' = events st @
           [Log INFO ''Stopping system metrics monitoring...'',
            (case join of
               None \<Rightarrow> Log INFO ''Successfully terminated system metrics monitoring!''
             | Some x \<Rightarrow> Log ERROR (''Error terminating system metrics monitoring process: ''
                                      @ exn_str x @ ''.''))] \<and>
         finish join' st' = Inr st'))"
proof -
  have a: "\<exists>st'. finish join st = Inr st'"
    by (simp add: finish_def Let_def split: option.splits)
  have b: "process st = None \<longrightarrow> finish join st = Inr st"
    by (simp add: finish_def)
  have c: "\<forall>st0. SystemMetricsMonitor_init cpu disk net gpu ei es rid ia sa = Inr st0 \<longrightarrow>
      finish join st0 = Inr st0"
  proof (intro allI impI)
    fix st0
    assume "SystemMetricsMonitor_init cpu disk net gpu ei es rid ia sa = Inr st0"
    from init_fields [OF this] have "process st0 = None" by simp
    then show "finish join st0 = Inr st0" by (simp add: finish_def)
  qed
  have d: "\<exists>st1. start (Some e) st = Inr st1 \<and> process st1 = None \<and>
      events st1 = events st @
        [Log WARNING (''Failed to start monitoring system metrics: '' @ exn_str e)] \<and>
      finish join st1 = Inr st1"
    by (simp add: start_def log_def finish_def)
  have e: "\<forall>t. process st = Some t \<longrightarrow>
      (\<exists>st'. finish join st = Inr st' \<and> shutdown_event st' \<and> process st' = None \<and>
         events st' = events st @
           [Log INFO ''Stopping system metrics monitoring...'',
            (case join of
               None \<Rightarrow> Log INFO ''Successfully terminated system metrics monitoring!''
             | Some x \<Rightarrow> Log ERROR (''Error terminating system metrics monitoring process: ''
                                      @ exn_str x @ ''.''))] \<and>
         finish join' st' = Inr st')"
    by (cases join) (simp_all add: finish_def log_def Let_def)
  from a b c d e show ?thesis by (intro conjI)
qed

theorem finish_never_raises_witness:
  "process ex_state = Some (Thread ''SystemMetricsMonitor'') \<and>
   (\<exists>st'. finish (Some (Exception ''join'')) ex_state = Inr st' \<and> shutdown_event st' \<and>
      process st' = None \<and> finish None st' = Inr st') \<and>
   process ex_scenario_state = None \<and>
   finish None ex_scenario_state = Inr ex_scenario_state"
proof -
  have p: "process ex_state = Some (Thread ''SystemMetricsMonitor'')"
    by (simp add: ex_state_def)
  have q: "process ex_scenario_state = None"
    by (simp add: ex_scenario_state_def)
  note t = finish_never_raises [of "Some (Exception ''join'')" ex_state _ _ _ _ _ _ _ _ _ _ None]
  note u = finish_never_raises [of None ex_scenario_state]
  from t p have "\<exists>st'. finish (Some (Exception ''join'')) ex_state = Inr st' \<and> shutdown_event st' \<and>
      process st' = None \<and> finish None st' = Inr st'"
    by blast
  moreover from u q have "finish None ex_scenario_state = Inr ex_scenario_state"
    by blast
  ultimately show ?thesis using p q by blast
qed

text \<open>
  C5 at an override of zero: with both environment variables set to 0 and the two
  constructor arguments left out, \<open>__init__\<close> resolves the interval to the default 10 and
  the sample count to the default 1, not to the overrides.
\<close>

theorem zero_override_ignored:
  "\<exists>st. SystemMetricsMonitor_init (Inr (ex_source ''cpu'' 1)) (Inr (ex_source ''disk'' 2))
           (Inr (ex_source ''net'' 3)) (Inr (ex_source ''gpu'' 4))
           (Some 0) (Some 0) ''run'' None None = Inr (st :: (int mock_source, int) monitor_state) \<and>
        sampling_interval st = 10 \<and> samples_before_logging st = 1"
  by (simp add: SystemMetricsMonitor_init_def num_or_def)

text \<open>
  What \<open>__init__\<close> resolves in general: an override that is set and not zero wins, otherwise
  the argument (or its default); the loop never changes the two values.
\<close>

lemma config_resolved_once:
  assumes "SystemMetricsMonitor_init cpu disk net gpu ei es rid ia sa = Inr st0"
  shows "sampling_interval st0 =
           (case ei of Some x \<Rightarrow> if x \<noteq> 0 then x else (case ia of None \<Rightarrow> 10 | Some y \<Rightarrow> y)
                     | None \<Rightarrow> (case ia of None \<Rightarrow> 10 | Some y \<Rightarrow> y)) \<and>
         samples_before_logging st0 =
           (case es of Some x \<Rightarrow> if x \<noteq> 0 then x else (case sa of None \<Rightarrow> 1 | Some y \<Rightarrow> y)
                     | None \<Rightarrow> (case sa of None \<Rightarrow> 1 | Some y \<Rightarrow> y)) \<and>
         sampling_interval (flow_state (monitor_cycles c env n st0)) = sampling_interval st0 \<and>
         samples_before_logging (flow_state (monitor_cycles c env n st0)) = samples_before_logging st0"
  using init_fields [OF assms] monitor_cycles_steps [OF refl, of c env n st0]
  by (simp add: num_or_def split: option.splits)

end
